theory Spec2Isabelle
  imports Main "HOL-Library.Sublist" "HOL-Library.AList"
begin

section \<open>Keyword search in files and directories (file\_search\_server.py)\<close>

text \<open>
  A shallow embedding of the two tools of \<^verbatim>\<open>file_search_server.py\<close>,
  \<^verbatim>\<open>search_keyword_in_file\<close> and \<^verbatim>\<open>search_keyword_in_directory\<close>.

  Python's \<^verbatim>\<open>str\<close> is modelled by \<^typ>\<open>string\<close>: a text is represented by the
  bytes of its UTF-8 encoding, so the bytes of a file and the text decoded from it
  have the same type. Python's unbounded \<^verbatim>\<open>int\<close> is \<^typ>\<open>int\<close>. The operator
  \<^verbatim>\<open>in\<close> on two strings is \<^const>\<open>sublist\<close>, \<^verbatim>\<open>str.endswith\<close> is
  \<^const>\<open>suffix\<close>. The file system is a parameter of both tools.
\<close>

subsection \<open>The string operations of the Python runtime that the tools use\<close>

definition LF :: char where
  "LF = CHR 0x0A"

definition CR :: char where
  "CR = CHR 0x0D"

definition byte :: "char \<Rightarrow> nat" where
  "byte c = of_char c"

text \<open>\<^verbatim>\<open>str.lower\<close> on the ASCII letters; every other byte is left as it is.\<close>

definition lower_char :: "char \<Rightarrow> char" where
  "lower_char c = (if 65 \<le> byte c \<and> byte c \<le> 90 then char_of (byte c + 32) else c)"

definition lower :: "string \<Rightarrow> string" where
  "lower s = map lower_char s"

text \<open>\<^verbatim>\<open>s.rstrip('\n')\<close> removes every trailing line feed.\<close>

definition rstrip_newline :: "string \<Rightarrow> string" where
  "rstrip_newline s = rev (dropWhile (\<lambda>c. c = LF) (rev s))"

text \<open>A text between single quotes, as in \<^verbatim>\<open>f"'{keyword}'"\<close>.\<close>

definition quoted :: "string \<Rightarrow> string" where
  "quoted s = [CHR 0x27] @ s @ [CHR 0x27]"

text \<open>\<^verbatim>\<open>str(n)\<close> for an integer, and the format \<^verbatim>\<open>{n:4d}\<close>: right-aligned in a
  field of four characters, wider when the number needs it.\<close>

fun str_nat :: "nat \<Rightarrow> string" where
  "str_nat n = (if n < 10 then [char_of (48 + n)]
                else str_nat (n div 10) @ [char_of (48 + n mod 10)])"

definition str_int :: "int \<Rightarrow> string" where
  "str_int i = (if i < 0 then CHR ''-'' # str_nat (nat (- i)) else str_nat (nat i))"

definition format_4d :: "int \<Rightarrow> string" where
  "format_4d i = replicate (4 - length (str_int i)) CHR '' '' @ str_int i"

subsection \<open>Exceptions\<close>

datatype py_exc = PermissionError | UnicodeDecodeError | IndexError | OSError string

text \<open>\<^verbatim>\<open>str(e)\<close>, as the last handler of \<^verbatim>\<open>search_keyword_in_file\<close> prints it.\<close>

fun exc_str :: "py_exc \<Rightarrow> string" where
  "exc_str PermissionError = ''Permission denied''"
| "exc_str UnicodeDecodeError = ''invalid start byte''"
| "exc_str IndexError = ''list index out of range''"
| "exc_str (OSError msg) = msg"

text \<open>The subscript \<^verbatim>\<open>xs[i]\<close> of a list: from the front for \<open>0 \<le> i\<close>, from the back for
  \<open>i < 0\<close>, and \<^verbatim>\<open>IndexError\<close> outside \<open>- len \<le> i < len\<close>.\<close>

definition py_getitem :: "'a list \<Rightarrow> int \<Rightarrow> py_exc + 'a" where
  "py_getitem xs i =
     (if 0 \<le> i \<and> i < int (length xs) then Inr (xs ! nat i)
      else if i < 0 \<and> - int (length xs) \<le> i then Inr (xs ! nat (int (length xs) + i))
      else Inl IndexError)"

subsection \<open>Reading a file as text: \<^verbatim>\<open>open(p, 'r', encoding='utf-8', errors='ignore')\<close>\<close>

text \<open>
  The UTF-8 decoder with its two error handlers. At an ill-formed sequence the strict
  handler raises; the handler \<^verbatim>\<open>ignore\<close> drops the offending bytes (the start byte
  alone, or the bytes of the sequence read so far when a continuation byte is wrong,
  or the rest of the input when it ends inside a sequence) and goes on. A well-formed
  sequence is kept as it is, since a text is represented by its encoding.
\<close>

datatype error_handler = Strict | Ignore

definition is_continuation :: "char \<Rightarrow> bool" where
  "is_continuation c \<longleftrightarrow> 0x80 \<le> byte c \<and> byte c < 0xC0"

definition keep :: "string \<Rightarrow> py_exc + string \<Rightarrow> py_exc + string" where
  "keep cs r = (case r of Inl e \<Rightarrow> Inl e | Inr t \<Rightarrow> Inr (cs @ t))"

definition on_error :: "error_handler \<Rightarrow> py_exc + string \<Rightarrow> py_exc + string" where
  "on_error h r = (case h of Strict \<Rightarrow> Inl UnicodeDecodeError | Ignore \<Rightarrow> r)"

fun utf8_decode :: "error_handler \<Rightarrow> string \<Rightarrow> py_exc + string" where
  "utf8_decode h [] = Inr []"
| "utf8_decode h (b # bs) =
     (if byte b < 0x80 then keep [b] (utf8_decode h bs)
      else if byte b < 0xC2 then on_error h (utf8_decode h bs)
      else if byte b < 0xE0 then
        (case bs of
           [] \<Rightarrow> on_error h (Inr [])
         | c # cs \<Rightarrow>
             if is_continuation c then keep [b, c] (utf8_decode h cs)
             else on_error h (utf8_decode h bs))
      else if byte b < 0xF0 then
        (case bs of
           [] \<Rightarrow> on_error h (Inr [])
         | c # cs \<Rightarrow>
             if \<not> is_continuation c \<or> (byte b = 0xE0 \<and> byte c < 0xA0)
                \<or> (byte b = 0xED \<and> 0xA0 \<le> byte c)
             then on_error h (utf8_decode h bs)
             else
               (case cs of
                  [] \<Rightarrow> on_error h (Inr [])
                | d # ds \<Rightarrow>
                    if is_continuation d then keep [b, c, d] (utf8_decode h ds)
                    else on_error h (utf8_decode h cs)))
      else if byte b < 0xF5 then
        (case bs of
           [] \<Rightarrow> on_error h (Inr [])
         | c # cs \<Rightarrow>
             if \<not> is_continuation c \<or> (byte b = 0xF0 \<and> byte c < 0x90)
                \<or> (byte b = 0xF4 \<and> 0x90 \<le> byte c)
             then on_error h (utf8_decode h bs)
             else
               (case cs of
                  [] \<Rightarrow> on_error h (Inr [])
                | d # ds \<Rightarrow>
                    if \<not> is_continuation d then on_error h (utf8_decode h cs)
                    else
                      (case ds of
                         [] \<Rightarrow> on_error h (Inr [])
                       | e # es \<Rightarrow>
                           if is_continuation e then keep [b, c, d, e] (utf8_decode h es)
                           else on_error h (utf8_decode h ds))))
      else on_error h (utf8_decode h bs))"

text \<open>Universal newlines (the default \<^verbatim>\<open>newline=None\<close> of \<^verbatim>\<open>open\<close>): a carriage
  return, with the line feed after it if there is one, is read as one line feed.\<close>

fun universal_newlines :: "string \<Rightarrow> string" where
  "universal_newlines [] = []"
| "universal_newlines (c # cs) =
     (if c = CR then
        (case cs of
           [] \<Rightarrow> [LF]
         | d # ds \<Rightarrow> if d = LF then LF # universal_newlines ds else LF # universal_newlines cs)
      else c # universal_newlines cs)"

text \<open>\<^verbatim>\<open>f.readlines()\<close>: the lines of the text, each with its line feed; the last line
  has none when the text does not end with one.\<close>

fun split_lines :: "string \<Rightarrow> string list" where
  "split_lines [] = []"
| "split_lines (c # cs) =
     (if c = LF then [LF] # split_lines cs
      else (case split_lines cs of [] \<Rightarrow> [[c]] | l # ls \<Rightarrow> (c # l) # ls))"

definition readlines :: "string \<Rightarrow> py_exc + string list" where
  "readlines bs =
     (case utf8_decode Ignore bs of
        Inl e \<Rightarrow> Inl e
      | Inr text \<Rightarrow> Inr (split_lines (universal_newlines text)))"

subsection \<open>The file system\<close>

text \<open>
  What a path names is a parameter of the tools. A regular file either has bytes or
  cannot be opened, and then \<^verbatim>\<open>open\<close> raises. A directory is given as
  \<^verbatim>\<open>os.walk\<close> presents it: its files and its subdirectories, each in the order
  of the listing.
\<close>

datatype file_data = Bytes string | OpenRaises py_exc

datatype tree = Tree "(string \<times> file_data) list" "(string \<times> tree) list"

datatype fs_object = Missing | RegularFile file_data | Directory tree

type_synonym filesystem = "string \<Rightarrow> fs_object"

definition path_exists :: "filesystem \<Rightarrow> string \<Rightarrow> bool" where
  "path_exists fs p = (case fs p of Missing \<Rightarrow> False | _ \<Rightarrow> True)"

definition path_isfile :: "filesystem \<Rightarrow> string \<Rightarrow> bool" where
  "path_isfile fs p = (case fs p of RegularFile _ \<Rightarrow> True | _ \<Rightarrow> False)"

definition path_isdir :: "filesystem \<Rightarrow> string \<Rightarrow> bool" where
  "path_isdir fs p = (case fs p of Directory _ \<Rightarrow> True | _ \<Rightarrow> False)"

text \<open>\<^verbatim>\<open>with open(...) as f: lines = f.readlines()\<close>\<close>

definition read_file :: "file_data \<Rightarrow> py_exc + string list" where
  "read_file d = (case d of OpenRaises e \<Rightarrow> Inl e | Bytes bs \<Rightarrow> readlines bs)"

definition open_readlines :: "filesystem \<Rightarrow> string \<Rightarrow> py_exc + string list" where
  "open_readlines fs p =
     (case fs p of
        RegularFile d \<Rightarrow> read_file d
      | Directory _ \<Rightarrow> Inl (OSError ''[Errno 21] Is a directory'')
      | Missing \<Rightarrow> Inl (OSError ''[Errno 2] No such file or directory''))"

subsection \<open>\<^verbatim>\<open>search_keyword_in_file\<close>\<close>

text \<open>The dictionaries that the two loops append: the directory search stores a line
  number and the line, the file search stores the context as well.\<close>

record file_match =
  line_number :: int
  match_line :: string

record match = file_match +
  match_context :: "string list"

text \<open>\<^verbatim>\<open>enumerate(xs, start=1)\<close>\<close>

definition enumerate1 :: "'a list \<Rightarrow> (int \<times> 'a) list" where
  "enumerate1 xs = zip [1..int (length xs)] xs"

text \<open>\<^verbatim>\<open>f"{marker} {ctx_line_num:4d}: {ctx_line}"\<close>\<close>

definition context_marker :: "int \<Rightarrow> int \<Rightarrow> string" where
  "context_marker ctx_line_num line_num = (if ctx_line_num = line_num then ''>>>'' else ''   '')"

definition format_context_line :: "string \<Rightarrow> int \<Rightarrow> string \<Rightarrow> string" where
  "format_context_line marker ctx_line_num ctx_line =
     marker @ '' '' @ format_4d ctx_line_num @ '': '' @ ctx_line"

text \<open>The inner loop, over \<^verbatim>\<open>range(start_line, end_line + 1)\<close>.\<close>

fun collect_context :: "string list \<Rightarrow> int \<Rightarrow> int list \<Rightarrow> py_exc + string list" where
  "collect_context lines line_num [] = Inr []"
| "collect_context lines line_num (ctx_line_num # rest) =
     (case py_getitem lines (ctx_line_num - 1) of
        Inl e \<Rightarrow> Inl e
      | Inr l \<Rightarrow>
          (case collect_context lines line_num rest of
             Inl e \<Rightarrow> Inl e
           | Inr ctx \<Rightarrow>
               Inr (format_context_line (context_marker ctx_line_num line_num) ctx_line_num
                      (rstrip_newline l) # ctx)))"

text \<open>The outer loop, over \<^verbatim>\<open>enumerate(lines, start=1)\<close>.\<close>

fun search_lines ::
  "string list \<Rightarrow> string \<Rightarrow> bool \<Rightarrow> int \<Rightarrow> (int \<times> string) list \<Rightarrow> py_exc + match list" where
  "search_lines lines search_keyword case_sensitive context_lines [] = Inr []"
| "search_lines lines search_keyword case_sensitive context_lines ((line_num, l) # rest) =
     (let line_content = (if case_sensitive then l else lower l) in
      if sublist search_keyword line_content then
        (let start_line = max 1 (line_num - context_lines);
             end_line = min (int (length lines)) (line_num + context_lines)
         in case collect_context lines line_num [start_line..end_line] of
              Inl e \<Rightarrow> Inl e
            | Inr ctx \<Rightarrow>
                (case search_lines lines search_keyword case_sensitive context_lines rest of
                   Inl e \<Rightarrow> Inl e
                 | Inr matches \<Rightarrow>
                     Inr (\<lparr>line_number = line_num, match_line = rstrip_newline l,
                           match_context = ctx\<rparr> # matches)))
      else search_lines lines search_keyword case_sensitive context_lines rest)"

text \<open>The body of the \<^verbatim>\<open>try\<close> up to the end of the loop: the list \<^verbatim>\<open>matches\<close>,
  or the exception raised on the way.\<close>

definition matches_in_file ::
  "filesystem \<Rightarrow> string \<Rightarrow> string \<Rightarrow> bool \<Rightarrow> int \<Rightarrow> py_exc + match list" where
  "matches_in_file fs file_path search_keyword case_sensitive context_lines =
     (case open_readlines fs file_path of
        Inl e \<Rightarrow> Inl e
      | Inr lines \<Rightarrow>
          search_lines lines search_keyword case_sensitive context_lines (enumerate1 lines))"

text \<open>\<^verbatim>\<open>"\n".join(xs)\<close>\<close>

fun join_lines :: "string list \<Rightarrow> string" where
  "join_lines [] = []"
| "join_lines [x] = x"
| "join_lines (x # y # ys) = x @ [LF] @ join_lines (y # ys)"

definition format_match :: "int \<times> match \<Rightarrow> string" where
  "format_match im =
     (case im of (i, m) \<Rightarrow>
        ''--- Match '' @ str_int i @ '' (Line '' @ str_int (line_number m) @ '') ---'' @ [LF]
        @ join_lines (match_context m) @ [LF, LF])"

text \<open>The messages of \<^verbatim>\<open>search_keyword_in_file\<close>.\<close>

definition file_not_found_message :: "string \<Rightarrow> string" where
  "file_not_found_message file_path = ''Error: File '' @ quoted file_path @ '' does not exist.''"

definition not_a_file_message :: "string \<Rightarrow> string" where
  "not_a_file_message file_path = ''Error: '' @ quoted file_path @ '' is not a file.''"

definition no_matches_in_file_message :: "string \<Rightarrow> string \<Rightarrow> string" where
  "no_matches_in_file_message keyword file_path =
     ''No matches found for '' @ quoted keyword @ '' in file '' @ quoted file_path @ ''.''"

definition found_in_file_report :: "string \<Rightarrow> string \<Rightarrow> match list \<Rightarrow> string" where
  "found_in_file_report keyword file_path matches =
     ''Found '' @ str_int (int (length matches)) @ '' match(es) for '' @ quoted keyword
     @ '' in '' @ quoted file_path @ '':'' @ [LF, LF]
     @ concat (map format_match (enumerate1 matches))"

definition permission_denied_message :: "string \<Rightarrow> string" where
  "permission_denied_message file_path =
     ''Error: Permission denied. Cannot read file '' @ quoted file_path @ ''.''"

definition decode_error_message :: "string \<Rightarrow> string" where
  "decode_error_message file_path =
     ''Error: Cannot decode file '' @ quoted file_path @ ''. It may be a binary file.''"

definition read_error_message :: "string \<Rightarrow> py_exc \<Rightarrow> string" where
  "read_error_message file_path e =
     ''Error reading file '' @ quoted file_path @ '': '' @ exc_str e"

definition search_keyword_in_file ::
  "filesystem \<Rightarrow> string \<Rightarrow> string \<Rightarrow> bool \<Rightarrow> int \<Rightarrow> string" where
  "search_keyword_in_file fs file_path keyword case_sensitive context_lines =
     (if \<not> path_exists fs file_path then file_not_found_message file_path
      else if \<not> path_isfile fs file_path then not_a_file_message file_path
      else
        let search_keyword = (if case_sensitive then keyword else lower keyword)
        in case matches_in_file fs file_path search_keyword case_sensitive context_lines of
             Inr matches \<Rightarrow>
               if matches = [] then no_matches_in_file_message keyword file_path
               else found_in_file_report keyword file_path matches
           | Inl PermissionError \<Rightarrow> permission_denied_message file_path
           | Inl UnicodeDecodeError \<Rightarrow> decode_error_message file_path
           | Inl e \<Rightarrow> read_error_message file_path e)"

subsection \<open>\<^verbatim>\<open>search_keyword_in_directory\<close>\<close>

definition text_extensions :: "string set" where
  "text_extensions =
     {''.py'', ''.txt'', ''.md'', ''.json'', ''.xml'', ''.html'', ''.css'', ''.js'', ''.ts'',
      ''.java'', ''.cpp'', ''.c'', ''.h'', ''.hpp'', ''.rs'', ''.go'', ''.rb'', ''.php'',
      ''.sh'', ''.yaml'', ''.yml'', ''.toml'', ''.ini'', ''.cfg'', ''.conf''}"

text \<open>\<^verbatim>\<open>s.rfind(c)\<close>: the index of the last occurrence, or \<open>-1\<close>.\<close>

fun rfind :: "char \<Rightarrow> string \<Rightarrow> int" where
  "rfind c [] = - 1"
| "rfind c (x # xs) =
     (let r = rfind c xs in if 0 \<le> r then r + 1 else if x = c then 0 else - 1)"

text \<open>
  \<^verbatim>\<open>os.path.splitext\<close>: the extension starts at the last dot, provided that dot
  comes after the last separator and some character between the two is not a dot.
\<close>

definition splitext :: "string \<Rightarrow> string \<times> string" where
  "splitext p =
     (let sepIndex = rfind CHR ''/'' p; dotIndex = rfind CHR ''.'' p
      in if sepIndex < dotIndex
            \<and> list_ex (\<lambda>filenameIndex. p ! nat filenameIndex \<noteq> CHR ''.'')
                 [sepIndex + 1..dotIndex - 1]
         then (take (nat dotIndex) p, drop (nat dotIndex) p)
         else (p, []))"

text \<open>The truth value of an \<^verbatim>\<open>Optional[str]\<close>: \<^verbatim>\<open>None\<close> and the empty string are
  false.\<close>

definition truthy :: "string option \<Rightarrow> bool" where
  "truthy file_pattern = (case file_pattern of None \<Rightarrow> False | Some s \<Rightarrow> s \<noteq> [])"

text \<open>The filter at the head of the loop body: false where the source says
  \<^verbatim>\<open>continue\<close>.\<close>

definition file_selected :: "string option \<Rightarrow> string \<Rightarrow> bool" where
  "file_selected file_pattern file =
     (if truthy file_pattern then suffix (the file_pattern) file
      else lower (snd (splitext file)) \<in> text_extensions)"

text \<open>
  \<^verbatim>\<open>os.walk\<close>, top down: a directory with its files, then its subdirectories in
  turn. The root that the walk carries is kept relative to the directory searched,
  so that joining it with a file name gives what
  \<^verbatim>\<open>os.path.relpath(os.path.join(root, file), directory_path)\<close> returns.
\<close>

definition rel_join :: "string \<Rightarrow> string \<Rightarrow> string" where
  "rel_join root name = (if root = [] then name else root @ ''/'' @ name)"

fun walk :: "string \<Rightarrow> tree \<Rightarrow> (string \<times> (string \<times> file_data) list) list" where
  "walk root (Tree files dirs) =
     (root, files) # concat (map (\<lambda>(d, t). walk (rel_join root d) t) dirs)"

definition listing :: "filesystem \<Rightarrow> string \<Rightarrow> tree" where
  "listing fs p = (case fs p of Directory t \<Rightarrow> t | _ \<Rightarrow> Tree [] [])"

text \<open>The loop over the lines of one file: no context here.\<close>

fun scan_lines :: "string \<Rightarrow> bool \<Rightarrow> (int \<times> string) list \<Rightarrow> file_match list" where
  "scan_lines search_keyword case_sensitive [] = []"
| "scan_lines search_keyword case_sensitive ((line_num, l) # rest) =
     (let line_content = (if case_sensitive then l else lower l) in
      if sublist search_keyword line_content then
        \<lparr>line_number = line_num, match_line = rstrip_newline l\<rparr>
          # scan_lines search_keyword case_sensitive rest
      else scan_lines search_keyword case_sensitive rest)"

text \<open>
  The body of the loop over the files of one directory. The dictionary
  \<^verbatim>\<open>matches_by_file\<close> is an association list in insertion order, and
  \<^const>\<open>AList.update\<close> is the assignment \<^verbatim>\<open>d[k] = v\<close>. Both handlers of the inner
  \<^verbatim>\<open>try\<close> say \<^verbatim>\<open>continue\<close>: whatever the read raises, the dictionary stays as it is.
\<close>

definition visit_file ::
  "string \<Rightarrow> string option \<Rightarrow> bool \<Rightarrow> string \<Rightarrow> string \<times> file_data
   \<Rightarrow> (string \<times> file_match list) list \<Rightarrow> (string \<times> file_match list) list" where
  "visit_file search_keyword file_pattern case_sensitive root fd matches_by_file =
     (case fd of (file, d) \<Rightarrow>
        if \<not> file_selected file_pattern file then matches_by_file
        else
          (case read_file d of
             Inl e \<Rightarrow> matches_by_file
           | Inr lines \<Rightarrow>
               let file_matches = scan_lines search_keyword case_sensitive (enumerate1 lines)
               in if file_matches \<noteq> []
                  then AList.update (rel_join root file) file_matches matches_by_file
                  else matches_by_file))"

definition visit_directory ::
  "string \<Rightarrow> string option \<Rightarrow> bool \<Rightarrow> (string \<times> file_match list) list
   \<Rightarrow> string \<times> (string \<times> file_data) list \<Rightarrow> (string \<times> file_match list) list" where
  "visit_directory search_keyword file_pattern case_sensitive matches_by_file rf =
     (case rf of (root, files) \<Rightarrow>
        foldl (\<lambda>m fd. visit_file search_keyword file_pattern case_sensitive root fd m)
          matches_by_file files)"

definition matches_in_directory ::
  "string \<Rightarrow> string option \<Rightarrow> bool \<Rightarrow> tree \<Rightarrow> (string \<times> file_match list) list" where
  "matches_in_directory search_keyword file_pattern case_sensitive t =
     foldl (visit_directory search_keyword file_pattern case_sensitive) [] (walk [] t)"

text \<open>The bytes that open the line of a file in the report, as the source file has
  them.\<close>

definition file_icon :: string where
  "file_icon = [CHR 0xC3, CHR 0xB0, CHR 0xC5, CHR 0xB8, CHR 0xE2, CHR 0x80, CHR 0x9C,
                CHR 0xE2, CHR 0x80, CHR 0x9E]"

definition format_file_entry :: "string \<times> file_match list \<Rightarrow> string" where
  "format_file_entry e =
     (case e of (file_path, file_matches) \<Rightarrow>
        file_icon @ '' '' @ file_path @ '' ('' @ str_int (int (length file_matches))
        @ '' match(es))'' @ [LF]
        @ concat (map (\<lambda>m. ''   Line '' @ str_int (line_number m) @ '': '' @ match_line m @ [LF])
                    file_matches)
        @ [LF])"

definition directory_not_found_message :: "string \<Rightarrow> string" where
  "directory_not_found_message directory_path =
     ''Error: Directory '' @ quoted directory_path @ '' does not exist.''"

definition not_a_directory_message :: "string \<Rightarrow> string" where
  "not_a_directory_message directory_path =
     ''Error: '' @ quoted directory_path @ '' is not a directory.''"

definition no_matches_in_directory_message :: "string \<Rightarrow> string \<Rightarrow> string" where
  "no_matches_in_directory_message keyword directory_path =
     ''No matches found for '' @ quoted keyword @ '' in directory '' @ quoted directory_path
     @ ''.''"

definition found_in_directory_report ::
  "string \<Rightarrow> (string \<times> file_match list) list \<Rightarrow> string" where
  "found_in_directory_report keyword matches_by_file =
     ''Found matches for '' @ quoted keyword @ '' in ''
     @ str_int (int (length matches_by_file)) @ '' file(s):'' @ [LF, LF]
     @ concat (map format_file_entry matches_by_file)"

text \<open>
  Nothing in the body of the outer \<^verbatim>\<open>try\<close> raises: \<^verbatim>\<open>os.walk\<close> passes over a
  directory it cannot list, and what a file raises is caught inside the loop. The
  outer handler therefore has no branch here.
\<close>

definition search_keyword_in_directory ::
  "filesystem \<Rightarrow> string \<Rightarrow> string \<Rightarrow> string option \<Rightarrow> bool \<Rightarrow> string" where
  "search_keyword_in_directory fs directory_path keyword file_pattern case_sensitive =
     (if \<not> path_exists fs directory_path then directory_not_found_message directory_path
      else if \<not> path_isdir fs directory_path then not_a_directory_message directory_path
      else
        let search_keyword = (if case_sensitive then keyword else lower keyword);
            matches_by_file =
              matches_in_directory search_keyword file_pattern case_sensitive
                (listing fs directory_path)
        in if matches_by_file = [] then no_matches_in_directory_message keyword directory_path
           else found_in_directory_report keyword matches_by_file)"

subsection \<open>Notions used to state the properties\<close>

text \<open>The lines that \<^const>\<open>readlines\<close> returns for the bytes of a file.\<close>

definition decoded_lines :: "string \<Rightarrow> string list" where
  "decoded_lines bs = (case readlines bs of Inr lines \<Rightarrow> lines | Inl _ \<Rightarrow> [])"

text \<open>The context lines of the window around a line, formatted as the inner loop
  formats them.\<close>

definition context_block :: "string list \<Rightarrow> int \<Rightarrow> int \<Rightarrow> string list" where
  "context_block lines line_num context_lines =
     map (\<lambda>k. format_context_line (context_marker k line_num) k
                (rstrip_newline (lines ! nat (k - 1))))
       [max 1 (line_num - context_lines)..min (int (length lines)) (line_num + context_lines)]"

definition raises_nothing :: "py_exc + 'a \<Rightarrow> bool" where
  "raises_nothing r = (case r of Inl _ \<Rightarrow> False | Inr _ \<Rightarrow> True)"

text \<open>The file system in which no path names anything.\<close>

definition empty_fs :: filesystem where
  "empty_fs = (\<lambda>p. Missing)"

text \<open>The example of the specification: a file of the three lines alpha, BETA, gamma.\<close>

definition example_text :: string where
  "example_text = ''alpha'' @ [LF] @ ''BETA'' @ [LF] @ ''gamma'' @ [LF]"

definition example_fs :: filesystem where
  "example_fs = empty_fs(''notes.txt'' := RegularFile (Bytes example_text))"

text \<open>Every file below a directory, with the relative path of the directory that holds
  it, in the order in which the walk meets it.\<close>

definition walked_files :: "tree \<Rightarrow> (string \<times> string \<times> file_data) list" where
  "walked_files t =
     concat (map (\<lambda>(root, files). map (\<lambda>(file, d). (root, file, d)) files) (walk [] t))"

text \<open>The loop body run over a list of such files.\<close>

definition visit_all ::
  "string \<Rightarrow> string option \<Rightarrow> bool \<Rightarrow> (string \<times> file_match list) list
   \<Rightarrow> (string \<times> string \<times> file_data) list \<Rightarrow> (string \<times> file_match list) list" where
  "visit_all search_keyword file_pattern case_sensitive matches_by_file fs =
     foldl (\<lambda>m (root, file, d). visit_file search_keyword file_pattern case_sensitive root (file, d) m)
       matches_by_file fs"

text \<open>A file that \<^verbatim>\<open>open\<close> can read, and a tree without the files it cannot.\<close>

definition readable :: "file_data \<Rightarrow> bool" where
  "readable d = (case d of Bytes bs \<Rightarrow> True | OpenRaises e \<Rightarrow> False)"

fun without_unreadable :: "tree \<Rightarrow> tree" where
  "without_unreadable (Tree files dirs) =
     Tree (filter (\<lambda>(file, d). readable d) files)
          (map (\<lambda>(name, t). (name, without_unreadable t)) dirs)"

text \<open>The files below a directory whose relative path is given.\<close>

definition files_below :: "string \<Rightarrow> tree \<Rightarrow> (string \<times> string \<times> file_data) list" where
  "files_below root t =
     concat (map (\<lambda>(root, files). map (\<lambda>(file, d). (root, file, d)) files) (walk root t))"

text \<open>A directory to run the directory search on: two Python files, a file without
  extension, a file that cannot be opened, and a subdirectory.\<close>

definition example_tree :: tree where
  "example_tree =
     Tree [(''a.py'', Bytes (''x = BETA'' @ [LF] @ ''beta beta'' @ [LF])),
           (''snappy'', Bytes ''beta''),
           (''locked.txt'', OpenRaises PermissionError)]
          [(''sub'', Tree [(''copy.py'', Bytes (''no'' @ [LF] @ ''beTa''))] [])]"

definition example_dir_fs :: filesystem where
  "example_dir_fs = empty_fs(''proj'' := Directory example_tree)"

(*LEMMAS*)

section \<open>Properties\<close>

subsection \<open>Reading never raises on bytes\<close>

lemma raises_nothing_keep [simp]: "raises_nothing (keep cs r) = raises_nothing r"
  by (simp add: raises_nothing_def keep_def split: sum.split)

lemma raises_nothing_Inr [simp]: "raises_nothing (Inr t)"
  by (simp add: raises_nothing_def)

lemma on_error_Ignore [simp]: "on_error Ignore r = r"
  by (simp add: on_error_def)

lemma raises_nothing_if:
  "raises_nothing x \<Longrightarrow> raises_nothing y \<Longrightarrow> raises_nothing (if c then x else y)"
  by simp

lemma raises_nothing_case_list:
  "raises_nothing x \<Longrightarrow> (\<And>y ys. xs = y # ys \<Longrightarrow> raises_nothing (f y ys)) \<Longrightarrow>
   raises_nothing (case xs of [] \<Rightarrow> x | y # ys \<Rightarrow> f y ys)"
  by (cases xs) simp_all

lemma utf8_decode_Ignore_raises_nothing: "raises_nothing (utf8_decode Ignore bs)"
proof (induction bs rule: length_induct)
  case (1 xs)
  show ?case
  proof (cases xs)
    case Nil
    then show ?thesis by simp
  next
    case (Cons b bs)
    have shorter: "\<And>ys. length ys \<le> length bs \<Longrightarrow> raises_nothing (utf8_decode Ignore ys)"
      using 1 Cons by simp
    show ?thesis
      unfolding Cons utf8_decode.simps on_error_Ignore
      by (intro raises_nothing_if raises_nothing_case_list)
         (simp_all only: raises_nothing_keep raises_nothing_Inr shorter list.size length_Cons le_SucI order_refl)
  qed
qed

lemma utf8_decode_Ignore_total: "\<exists>t. utf8_decode Ignore bs = Inr t"
  using utf8_decode_Ignore_raises_nothing [of bs]
  by (cases "utf8_decode Ignore bs") (simp_all add: raises_nothing_def)


lemma readlines_decoded: "readlines bs = Inr (decoded_lines bs)"
  using utf8_decode_Ignore_total [of bs] by (auto simp: decoded_lines_def readlines_def)

lemma collect_context_in_range:
  "\<forall>k\<in>set ks. 1 \<le> k \<and> k \<le> int (length lines) \<Longrightarrow>
   collect_context lines n ks =
     Inr (map (\<lambda>k. format_context_line (context_marker k n) k (rstrip_newline (lines ! nat (k - 1)))) ks)"
  by (induction ks) (auto simp: py_getitem_def Let_def)

lemma collect_context_window:
  "collect_context lines n [max 1 (n - c)..min (int (length lines)) (n + c)] = Inr (context_block lines n c)"
  unfolding context_block_def by (rule collect_context_in_range) auto

lemma search_lines_Cons:
  "search_lines lines kw cs c ((n, l) # rest) =
     (if sublist kw (if cs then l else lower l) then
        (case search_lines lines kw cs c rest of
           Inl e \<Rightarrow> Inl e
         | Inr matches \<Rightarrow>
             Inr (\<lparr>line_number = n, match_line = rstrip_newline l,
                   match_context = context_block lines n c\<rparr> # matches))
      else search_lines lines kw cs c rest)"
  by (simp only: search_lines.simps Let_def collect_context_window sum.case)

lemma search_lines_result:
  "search_lines lines kw cs c es =
     Inr (map (\<lambda>(n, l). \<lparr>line_number = n, match_line = rstrip_newline l,
                         match_context = context_block lines n c\<rparr>)
            (filter (\<lambda>(n, l). sublist kw (if cs then l else lower l)) es))"
proof (induction es)
  case Nil
  show ?case by simp
next
  case (Cons e es)
  obtain n l where e: "e = (n, l)" by (cases e)
  show ?case
    unfolding e search_lines_Cons Cons.IH by simp
qed

subsection \<open>The list of matches of a readable file\<close>

lemma length_enumerate1 [simp]: "length (enumerate1 xs) = length xs"
  by (simp add: enumerate1_def)

lemma map_fst_enumerate1: "map fst (enumerate1 xs) = [1..int (length xs)]"
  by (simp add: enumerate1_def)

lemma map_snd_enumerate1: "map snd (enumerate1 xs) = xs"
  by (simp add: enumerate1_def)

lemma enumerate1_nth:
  "i < length xs \<Longrightarrow> enumerate1 xs ! i = (int i + 1, xs ! i)"
  by (simp add: enumerate1_def)

lemma in_set_enumerate1:
  "(n, l) \<in> set (enumerate1 xs) \<longleftrightarrow> 1 \<le> n \<and> n \<le> int (length xs) \<and> l = xs ! nat (n - 1)"
proof
  assume "(n, l) \<in> set (enumerate1 xs)"
  then obtain i where i: "i < length xs" "enumerate1 xs ! i = (n, l)"
    by (auto simp: in_set_conv_nth)
  then show "1 \<le> n \<and> n \<le> int (length xs) \<and> l = xs ! nat (n - 1)"
    by (auto simp: enumerate1_nth)
next
  assume a: "1 \<le> n \<and> n \<le> int (length xs) \<and> l = xs ! nat (n - 1)"
  then have lt: "nat (n - 1) < length xs" by linarith
  from a have "int (nat (n - 1)) + 1 = n" by linarith
  with a have "enumerate1 xs ! nat (n - 1) = (n, l)"
    using enumerate1_nth [OF lt] by simp
  with lt show "(n, l) \<in> set (enumerate1 xs)"
    by (metis length_enumerate1 nth_mem)
qed

lemma enumerate1_eq_map:
  "enumerate1 xs = map (\<lambda>n. (n, xs ! nat (n - 1))) [1..int (length xs)]"
  by (rule nth_equalityI) (simp_all add: enumerate1_nth)

lemma open_readlines_bytes:
  "fs p = RegularFile (Bytes bs) \<Longrightarrow> open_readlines fs p = Inr (decoded_lines bs)"
  by (simp add: open_readlines_def read_file_def readlines_decoded)

lemma matches_in_file_bytes:
  "fs p = RegularFile (Bytes bs) \<Longrightarrow>
   matches_in_file fs p kw cs c =
     Inr (map (\<lambda>(n, l). \<lparr>line_number = n, match_line = rstrip_newline l,
                         match_context = context_block (decoded_lines bs) n c\<rparr>)
            (filter (\<lambda>(n, l). sublist kw (if cs then l else lower l))
               (enumerate1 (decoded_lines bs))))"
  by (simp add: matches_in_file_def open_readlines_bytes search_lines_result)

lemma search_keyword_in_file_bytes:
  "fs p = RegularFile (Bytes bs) \<Longrightarrow>
   matches_in_file fs p (if cs then kw else lower kw) cs c = Inr ms \<Longrightarrow>
   search_keyword_in_file fs p kw cs c =
     (if ms = [] then no_matches_in_file_message kw p else found_in_file_report kw p ms)"
  by (simp add: search_keyword_in_file_def path_exists_def path_isfile_def)

lemma length_context_block:
  "length (context_block lines n c) =
     nat (min (int (length lines)) (n + c) - max 1 (n - c) + 1)"
  by (simp add: context_block_def)

lemma context_block_length_bounds:
  assumes "1 \<le> n" and "n \<le> int (length lines)" and "0 \<le> c"
  shows "1 \<le> length (context_block lines n c)"
    and "int (length (context_block lines n c)) \<le> 2 * c + 1"
  using assms by (simp_all add: length_context_block)

subsection \<open>The context window of a match\<close>

text \<open>
  Claim C1. For a readable file and a context of \<open>C \<ge> 0\<close> lines, every match that
  \<^const>\<open>search_keyword_in_file\<close> reports carries as context exactly the lines
  \<open>max 1 (n - C)\<close> to \<open>min total (n + C)\<close> around its line \<open>n\<close>, both ends
  included: between 1 and \<open>2C + 1\<close> lines, none outside the file, none twice, the
  matched line marked \<^verbatim>\<open>>>>\<close> and every other line marked with three spaces.
\<close>

theorem context_window_of_every_match:
  assumes "fs file_path = RegularFile (Bytes bs)" and "0 \<le> context_lines"
  shows "\<exists>matches.
      matches_in_file fs file_path (if case_sensitive then keyword else lower keyword)
        case_sensitive context_lines = Inr matches
    \<and> search_keyword_in_file fs file_path keyword case_sensitive context_lines =
        (if matches = [] then no_matches_in_file_message keyword file_path
         else found_in_file_report keyword file_path matches)
    \<and> (\<forall>m\<in>set matches.
          let lines = decoded_lines bs;
              n = line_number m;
              lo = max 1 (n - context_lines);
              hi = min (int (length lines)) (n + context_lines)
          in match_context m =
               map (\<lambda>k. format_context_line (if k = n then ''>>>'' else ''   '') k
                          (rstrip_newline (lines ! nat (k - 1))))
                 [lo..hi]
             \<and> 1 \<le> lo \<and> lo \<le> n \<and> n \<le> hi \<and> hi \<le> int (length lines)
             \<and> distinct [lo..hi]
             \<and> 1 \<le> length (match_context m)
             \<and> int (length (match_context m)) \<le> 2 * context_lines + 1)"
proof -
  define lines where "lines = decoded_lines bs"
  define skw where "skw = (if case_sensitive then keyword else lower keyword)"
  define matches where "matches =
    map (\<lambda>(n, l). \<lparr>line_number = n, match_line = rstrip_newline l,
                    match_context = context_block lines n context_lines\<rparr>)
      (filter (\<lambda>(n, l). sublist skw (if case_sensitive then l else lower l)) (enumerate1 lines))"
  have found: "matches_in_file fs file_path skw case_sensitive context_lines = Inr matches"
    unfolding matches_def lines_def
    using assms(1) by (rule matches_in_file_bytes [of fs file_path bs])
  have report: "search_keyword_in_file fs file_path keyword case_sensitive context_lines =
        (if matches = [] then no_matches_in_file_message keyword file_path
         else found_in_file_report keyword file_path matches)"
    using assms(1) found unfolding skw_def
    by (rule search_keyword_in_file_bytes [of fs file_path bs])
  have window: "let n = line_number m;
              lo = max 1 (n - context_lines);
              hi = min (int (length lines)) (n + context_lines)
          in match_context m =
               map (\<lambda>k. format_context_line (if k = n then ''>>>'' else ''   '') k
                          (rstrip_newline (lines ! nat (k - 1))))
                 [lo..hi]
             \<and> 1 \<le> lo \<and> lo \<le> n \<and> n \<le> hi \<and> hi \<le> int (length lines)
             \<and> distinct [lo..hi]
             \<and> 1 \<le> length (match_context m)
             \<and> int (length (match_context m)) \<le> 2 * context_lines + 1"
    if "m \<in> set matches" for m
  proof -
    from that obtain n l where nl: "(n, l) \<in> set (enumerate1 lines)"
      and m: "m = \<lparr>line_number = n, match_line = rstrip_newline l,
                    match_context = context_block lines n context_lines\<rparr>"
      unfolding matches_def by auto
    from nl have range: "1 \<le> n" "n \<le> int (length lines)"
      by (simp_all add: in_set_enumerate1)
    have ctx: "match_context m =
        map (\<lambda>k. format_context_line (if k = n then ''>>>'' else ''   '') k
                   (rstrip_newline (lines ! nat (k - 1))))
          [max 1 (n - context_lines)..min (int (length lines)) (n + context_lines)]"
      unfolding m by (simp add: context_block_def context_marker_def)
    have len: "1 \<le> length (match_context m)"
      "int (length (match_context m)) \<le> 2 * context_lines + 1"
      unfolding m using context_block_length_bounds [OF range assms(2)] by simp_all
    have n: "line_number m = n" unfolding m by simp
    show ?thesis
      unfolding Let_def n using ctx len range assms(2) by simp
  qed
  show ?thesis
  proof (rule exI [of _ matches], intro conjI ballI)
    show "matches_in_file fs file_path (if case_sensitive then keyword else lower keyword)
        case_sensitive context_lines = Inr matches"
      using found unfolding skw_def .
    show "search_keyword_in_file fs file_path keyword case_sensitive context_lines =
        (if matches = [] then no_matches_in_file_message keyword file_path
         else found_in_file_report keyword file_path matches)"
      by (rule report)
  next
    fix m assume "m \<in> set matches"
    from window [OF this]
    show "let lines = decoded_lines bs;
              n = line_number m;
              lo = max 1 (n - context_lines);
              hi = min (int (length lines)) (n + context_lines)
          in match_context m =
               map (\<lambda>k. format_context_line (if k = n then ''>>>'' else ''   '') k
                          (rstrip_newline (lines ! nat (k - 1))))
                 [lo..hi]
             \<and> 1 \<le> lo \<and> lo \<le> n \<and> n \<le> hi \<and> hi \<le> int (length lines)
             \<and> distinct [lo..hi]
             \<and> 1 \<le> length (match_context m)
             \<and> int (length (match_context m)) \<le> 2 * context_lines + 1"
      unfolding lines_def Let_def .
  qed
qed


theorem context_window_of_every_match_witness:
  "example_fs ''notes.txt'' = RegularFile (Bytes example_text) \<and> (0::int) \<le> 1
   \<and> matches_in_file example_fs ''notes.txt'' ''beta'' False 1 =
       Inr [\<lparr>line_number = 2, match_line = ''BETA'',
             match_context = [''       1: alpha'', ''>>>    2: BETA'', ''       3: gamma'']\<rparr>]
   \<and> (\<exists>matches.
        matches_in_file example_fs ''notes.txt'' (if False then ''beta'' else lower ''beta'') False 1
          = Inr matches
      \<and> search_keyword_in_file example_fs ''notes.txt'' ''beta'' False 1 =
          (if matches = [] then no_matches_in_file_message ''beta'' ''notes.txt''
           else found_in_file_report ''beta'' ''notes.txt'' matches)
      \<and> (\<forall>m\<in>set matches.
            let lines = decoded_lines example_text;
                n = line_number m;
                lo = max 1 (n - 1);
                hi = min (int (length lines)) (n + 1)
            in match_context m =
                 map (\<lambda>k. format_context_line (if k = n then ''>>>'' else ''   '') k
                            (rstrip_newline (lines ! nat (k - 1))))
                   [lo..hi]
               \<and> 1 \<le> lo \<and> lo \<le> n \<and> n \<le> hi \<and> hi \<le> int (length lines)
               \<and> distinct [lo..hi]
               \<and> 1 \<le> length (match_context m)
               \<and> int (length (match_context m)) \<le> 2 * 1 + 1))"
proof -
  have readable: "example_fs ''notes.txt'' = RegularFile (Bytes example_text)"
    by (simp add: example_fs_def)
  have nonneg: "(0::int) \<le> 1"
    by simp
  have run: "matches_in_file example_fs ''notes.txt'' ''beta'' False 1 =
       Inr [\<lparr>line_number = 2, match_line = ''BETA'',
             match_context = [''       1: alpha'', ''>>>    2: BETA'', ''       3: gamma'']\<rparr>]"
    by code_simp
  note context_window_of_every_match
    [where fs = example_fs and file_path = "''notes.txt''" and bs = example_text
       and context_lines = 1 and case_sensitive = False and keyword = "''beta''",
     OF readable nonneg]
  with readable nonneg run show ?thesis
    by (intro conjI)
qed

subsection \<open>The matches of a directory\<close>

lemma scan_lines_result:
  "scan_lines kw cs es =
     map (\<lambda>(n, l). \<lparr>line_number = n, match_line = rstrip_newline l\<rparr>)
       (filter (\<lambda>(n, l). sublist kw (if cs then l else lower l)) es)"
proof (induction es)
  case Nil
  show ?case by simp
next
  case (Cons e es)
  obtain n l where e: "e = (n, l)" by (cases e)
  show ?case unfolding e by (simp add: Cons.IH Let_def)
qed

lemma visit_file_unreadable:
  "visit_file kw pat cs root (file, OpenRaises e) m = m"
  by (simp add: visit_file_def read_file_def)

lemma visit_file_bytes:
  "visit_file kw pat cs root (file, Bytes bs) m =
     (if file_selected pat file \<and> scan_lines kw cs (enumerate1 (decoded_lines bs)) \<noteq> []
      then AList.update (rel_join root file) (scan_lines kw cs (enumerate1 (decoded_lines bs))) m
      else m)"
  by (simp add: visit_file_def read_file_def readlines_decoded Let_def)

lemma visit_all_Nil [simp]: "visit_all kw pat cs m [] = m"
  by (simp add: visit_all_def)

lemma visit_all_snoc:
  "visit_all kw pat cs m (fs @ [(root, file, d)]) =
     visit_file kw pat cs root (file, d) (visit_all kw pat cs m fs)"
  by (simp add: visit_all_def)

lemma visit_all_Cons:
  "visit_all kw pat cs m ((root, file, d) # fs) =
     visit_all kw pat cs (visit_file kw pat cs root (file, d) m) fs"
  by (simp add: visit_all_def)

lemma visit_all_append:
  "visit_all kw pat cs m (fs @ gs) = visit_all kw pat cs (visit_all kw pat cs m fs) gs"
  by (simp add: visit_all_def)

lemma visit_directory_visit_all:
  "visit_directory kw pat cs m (root, files) =
     visit_all kw pat cs m (map (\<lambda>(file, d). (root, file, d)) files)"
  by (simp add: visit_directory_def visit_all_def foldl_map split_def)

lemma foldl_visit_directory:
  "foldl (visit_directory kw pat cs) m ds =
     visit_all kw pat cs m
       (concat (map (\<lambda>(root, files). map (\<lambda>(file, d). (root, file, d)) files) ds))"
proof (induction ds arbitrary: m)
  case Nil
  show ?case by simp
next
  case (Cons d ds)
  obtain root files where d: "d = (root, files)" by (cases d)
  show ?case
    unfolding d by (simp add: Cons.IH visit_directory_visit_all visit_all_append)
qed

lemma matches_in_directory_walked:
  "matches_in_directory kw pat cs t = visit_all kw pat cs [] (walked_files t)"
  by (simp add: matches_in_directory_def walked_files_def foldl_visit_directory)

lemma readable_simps [simp]: "readable (Bytes bs)" "\<not> readable (OpenRaises e)"
  by (simp_all add: readable_def)

lemma set_update_subset: "set (AList.update k v al) \<subseteq> insert (k, v) (set al)"
  by (induction al) auto

lemma visit_all_entries:
  "(k, ms) \<in> set (visit_all kw pat cs m fs) \<Longrightarrow>
   (k, ms) \<in> set m \<or>
   (\<exists>root file bs. (root, file, Bytes bs) \<in> set fs \<and> file_selected pat file
      \<and> k = rel_join root file
      \<and> ms = scan_lines kw cs (enumerate1 (decoded_lines bs)) \<and> ms \<noteq> [])"
proof (induction fs rule: rev_induct)
  case Nil
  then show ?case by simp
next
  case (snoc f fs)
  obtain root fname d where f: "f = (root, fname, d)" by (cases f)
  show ?case
  proof (cases d)
    case (OpenRaises e)
    with snoc f show ?thesis
      by (auto simp: visit_all_snoc visit_file_unreadable)
  next
    case (Bytes bs)
    let ?ms = "scan_lines kw cs (enumerate1 (decoded_lines bs))"
    show ?thesis
    proof (cases "file_selected pat fname \<and> ?ms \<noteq> []")
      case False
      then have "visit_all kw pat cs m (fs @ [f]) = visit_all kw pat cs m fs"
        unfolding f Bytes visit_all_snoc visit_file_bytes by auto
      with snoc show ?thesis by auto
    next
      case True
      then have "visit_all kw pat cs m (fs @ [f]) =
          AList.update (rel_join root fname) ?ms (visit_all kw pat cs m fs)"
        unfolding f Bytes visit_all_snoc visit_file_bytes by simp
      with snoc.prems have "(k, ms) = (rel_join root fname, ?ms)
          \<or> (k, ms) \<in> set (visit_all kw pat cs m fs)"
        using set_update_subset [of "rel_join root fname" ?ms "visit_all kw pat cs m fs"] by auto
      then show ?thesis
      proof
        assume "(k, ms) = (rel_join root fname, ?ms)"
        with True f Bytes show ?thesis by auto
      next
        assume "(k, ms) \<in> set (visit_all kw pat cs m fs)"
        from snoc.IH [OF this] show ?thesis by auto
      qed
    qed
  qed
qed

lemma visit_file_keys_mono:
  "fst ` set m \<subseteq> fst ` set (visit_file kw pat cs root (file, d) m)"
  by (cases d) (auto simp: visit_file_unreadable visit_file_bytes AList.dom_update)

lemma visit_all_keys_mono:
  "fst ` set m \<subseteq> fst ` set (visit_all kw pat cs m fs)"
proof (induction fs rule: rev_induct)
  case Nil
  show ?case by simp
next
  case (snoc f fs)
  obtain root fname d where f: "f = (root, fname, d)" by (cases f)
  show ?case
    unfolding f visit_all_snoc
    using snoc visit_file_keys_mono [of "visit_all kw pat cs m fs" kw pat cs root fname d]
    by blast
qed

lemma visit_all_key_present:
  assumes "(root, file, Bytes bs) \<in> set fs" and "file_selected pat file"
    and "scan_lines kw cs (enumerate1 (decoded_lines bs)) \<noteq> []"
  shows "rel_join root file \<in> fst ` set (visit_all kw pat cs m fs)"
proof -
  from assms(1) obtain xs ys where fs: "fs = xs @ (root, file, Bytes bs) # ys"
    by (auto simp: in_set_conv_decomp)
  let ?m = "visit_file kw pat cs root (file, Bytes bs) (visit_all kw pat cs m xs)"
  have "rel_join root file \<in> fst ` set ?m"
    using assms(2,3) by (simp add: visit_file_bytes AList.dom_update)
  moreover have "visit_all kw pat cs m fs = visit_all kw pat cs ?m ys"
    unfolding fs by (simp add: visit_all_append visit_all_Cons)
  ultimately show ?thesis
    using visit_all_keys_mono [of ?m kw pat cs ys] by auto
qed

lemma visit_all_filter_readable:
  "visit_all kw pat cs m (filter (\<lambda>(root, file, d). readable d) fs) = visit_all kw pat cs m fs"
proof (induction fs arbitrary: m)
  case Nil
  show ?case by simp
next
  case (Cons f fs)
  obtain root fname d where f: "f = (root, fname, d)" by (cases f)
  show ?case
    unfolding f
    by (cases d) (simp_all add: visit_all_Cons visit_file_unreadable Cons.IH)
qed

lemma concat_map_concat:
  "concat (map g (concat xss)) = concat (map (\<lambda>xs. concat (map g xs)) xss)"
  by (induction xss) simp_all

lemma files_below_Tree:
  "files_below root (Tree files dirs) =
     map (\<lambda>(file, d). (root, file, d)) files
     @ concat (map (\<lambda>(name, t). files_below (rel_join root name) t) dirs)"
  by (simp add: files_below_def concat_map_concat comp_def split_def)

lemma files_below_without_unreadable:
  "files_below root (without_unreadable t) =
     filter (\<lambda>(root, file, d). readable d) (files_below root t)"
proof (induction root t rule: walk.induct)
  case (1 root files dirs)
  have dirs: "map (\<lambda>(name, t). files_below (rel_join root name) (without_unreadable t)) dirs =
      map (\<lambda>(name, t). filter (\<lambda>(root, file, d). readable d) (files_below (rel_join root name) t)) dirs"
    using 1 by (auto simp: split_def)
  show ?case
    by (simp add: files_below_Tree filter_concat filter_map comp_def split_def dirs [unfolded split_def])
qed

lemma walked_files_without_unreadable:
  "walked_files (without_unreadable t) =
     filter (\<lambda>(root, file, d). readable d) (walked_files t)"
  using files_below_without_unreadable [of "[]" t] by (simp add: files_below_def walked_files_def)

lemma matches_in_directory_without_unreadable:
  "matches_in_directory kw pat cs (without_unreadable t) = matches_in_directory kw pat cs t"
  by (simp add: matches_in_directory_walked walked_files_without_unreadable visit_all_filter_readable)

subsection \<open>The line numbers of the matches\<close>

lemma line_numbers_of_enumerate1:
  "map fst (filter (\<lambda>(n, l). P l) (enumerate1 xs)) =
     filter (\<lambda>n. P (xs ! nat (n - 1))) [1..int (length xs)]"
  by (simp add: enumerate1_eq_map filter_map comp_def)

lemma line_numbers_of_matches:
  "map line_number
     (map (\<lambda>(n, l). \<lparr>line_number = n, match_line = rstrip_newline l,
                      match_context = context_block lines n c\<rparr>)
        (filter (\<lambda>(n, l). sublist kw (if cs then l else lower l)) (enumerate1 lines))) =
   filter (\<lambda>n. sublist kw (if cs then lines ! nat (n - 1) else lower (lines ! nat (n - 1))))
     [1..int (length lines)]"
proof -
  have "map line_number
     (map (\<lambda>(n, l). \<lparr>line_number = n, match_line = rstrip_newline l,
                      match_context = context_block lines n c\<rparr>)
        (filter (\<lambda>(n, l). sublist kw (if cs then l else lower l)) (enumerate1 lines))) =
     map fst (filter (\<lambda>(n, l). sublist kw (if cs then l else lower l)) (enumerate1 lines))"
    by (simp add: comp_def split_def)
  then show ?thesis
    by (simp only: line_numbers_of_enumerate1)
qed

lemma line_numbers_of_scan_lines:
  "map line_number (scan_lines kw cs (enumerate1 lines)) =
   filter (\<lambda>n. sublist kw (if cs then lines ! nat (n - 1) else lower (lines ! nat (n - 1))))
     [1..int (length lines)]"
proof -
  have "map line_number (scan_lines kw cs (enumerate1 lines)) =
     map fst (filter (\<lambda>(n, l). sublist kw (if cs then l else lower l)) (enumerate1 lines))"
    by (simp add: scan_lines_result comp_def split_def)
  then show ?thesis
    by (simp only: line_numbers_of_enumerate1)
qed

lemma matching_line_numbers_increasing:
  "sorted_wrt (<) (filter P [1..n])" "distinct (filter P [1..n])"
  "\<forall>k\<in>set (filter P [1..n]). 1 \<le> k \<and> k \<le> n"
  "length (filter P [1..int m]) \<le> m"
proof -
  show "sorted_wrt (<) (filter P [1..n])" by (simp add: sorted_wrt_filter)
  show "distinct (filter P [1..n])" by simp
  show "\<forall>k\<in>set (filter P [1..n]). 1 \<le> k \<and> k \<le> n" by simp
  have "length (filter P [1..int m]) \<le> length [1..int m]" by (rule length_filter_le)
  then show "length (filter P [1..int m]) \<le> m" by simp
qed

lemma matches_in_file_line_numbers:
  assumes "fs p = RegularFile (Bytes bs)"
  shows "\<exists>ms. matches_in_file fs p kw cs c = Inr ms
     \<and> map line_number ms =
         filter (\<lambda>n. sublist kw (if cs then decoded_lines bs ! nat (n - 1)
                                  else lower (decoded_lines bs ! nat (n - 1))))
           [1..int (length (decoded_lines bs))]
     \<and> map match_context ms = map (\<lambda>n. context_block (decoded_lines bs) n c) (map line_number ms)"
proof -
  let ?ms = "map (\<lambda>(n, l). \<lparr>line_number = n, match_line = rstrip_newline l,
                         match_context = context_block (decoded_lines bs) n c\<rparr>)
            (filter (\<lambda>(n, l). sublist kw (if cs then l else lower l))
               (enumerate1 (decoded_lines bs)))"
  have "matches_in_file fs p kw cs c = Inr ?ms"
    using assms by (rule matches_in_file_bytes [of fs p bs])
  moreover have "map line_number ?ms =
         filter (\<lambda>n. sublist kw (if cs then decoded_lines bs ! nat (n - 1)
                                  else lower (decoded_lines bs ! nat (n - 1))))
           [1..int (length (decoded_lines bs))]"
    by (rule line_numbers_of_matches)
  moreover have "map match_context ?ms =
      map (\<lambda>n. context_block (decoded_lines bs) n c) (map line_number ?ms)"
    by (simp add: comp_def split_def)
  ultimately show ?thesis by blast
qed

end
